theory Spec2Isabelle
  imports Main
begin

section \<open>Values exchanged with the outside world\<close>

text \<open>
  The body of an HTTP response after \<^verbatim>\<open>response.json()\<close>. An object is the
  list of the items of the parsed dict (keys distinct), looked up with \<open>map_of\<close>.
  The code only tests a number for truth, so a number is kept as an integer
  (a float counts as \<open>0\<close> when it is zero and as non-zero otherwise).
\<close>

datatype json =
    JNull
  | JBool bool
  | JNum int
  | JStr string
  | JArr "json list"
  | JObj "(string \<times> json) list"

text \<open>The exceptions that the script can let escape.\<close>

datatype exn =
    RequestException
  | JSONDecodeError
  | AttributeError
  | TypeError
  | KeyError string
  | SSHTunnelError
  | MySQLError

text \<open>
  The \<^verbatim>\<open>variables\<close> of the posted query that change between runs and between
  requests: \<^verbatim>\<open>limit\<close> and \<^verbatim>\<open>offset\<close> (query text, \<^verbatim>\<open>where\<close>, URL and
  headers are constants of the run).
\<close>

record request =
  req_limit :: int
  req_offset :: int

text \<open>
  \<^verbatim>\<open>requests.post\<close> either raises (the endpoint cannot be reached) or returns a
  response with a status code and a body; \<open>None\<close> is a body that is not JSON.
\<close>

datatype reply = Unreachable | Reply int "json option"

text \<open>The endpoint: what the \<open>k\<close>-th request of a run is answered with.\<close>

type_synonym api = "nat \<Rightarrow> request \<Rightarrow> reply"

text \<open>The dict yielded by the fetch stage and read by the insert stage.\<close>

record student =
  nim :: json
  nama_program_studi :: json

text \<open>How a call ends: normally with the new state, or with an exception raised in a state.\<close>

datatype 's outcome = Ok 's | Raise exn 's

text \<open>The state a call ends in, however it ends.\<close>

fun state_of :: "'s outcome \<Rightarrow> 's" where
  "state_of (Ok s) = s"
| "state_of (Raise e s) = s"

section \<open>FetchGraphQLData\<close>

text \<open>Python's truth value of a parsed JSON value, as tested by \<^verbatim>\<open>if not result_data\<close>.\<close>

fun truthy :: "json \<Rightarrow> bool" where
  "truthy JNull = False"
| "truthy (JBool b) = b"
| "truthy (JNum n) = (n \<noteq> 0)"
| "truthy (JStr s) = (s \<noteq> [])"
| "truthy (JArr xs) = (xs \<noteq> [])"
| "truthy (JObj kvs) = (kvs \<noteq> [])"

text \<open>\<^verbatim>\<open>d.get(key, default)\<close>: only a dict has \<^verbatim>\<open>get\<close>.\<close>

fun dict_get :: "json \<Rightarrow> string \<Rightarrow> json \<Rightarrow> exn + json" where
  "dict_get (JObj kvs) k dflt = Inr (case map_of kvs k of None \<Rightarrow> dflt | Some v \<Rightarrow> v)"
| "dict_get _ k dflt = Inl AttributeError"

text \<open>\<^verbatim>\<open>data.get('data', {}).get('data', [])\<close>\<close>

definition result_data :: "json \<Rightarrow> exn + json" where
  "result_data data =
     (case dict_get data ''data'' (JObj []) of
        Inl e \<Rightarrow> Inl e
      | Inr inner \<Rightarrow> dict_get inner ''data'' (JArr []))"

text \<open>
  \<^verbatim>\<open>for item in result_data\<close>: a list gives its elements, a dict its keys, a string
  its characters; anything else is not iterable.
\<close>

fun iter_items :: "json \<Rightarrow> exn + json list" where
  "iter_items (JArr xs) = Inr xs"
| "iter_items (JObj kvs) = Inr (map (\<lambda>kv. JStr (fst kv)) kvs)"
| "iter_items (JStr s) = Inr (map (\<lambda>c. JStr [c]) s)"
| "iter_items _ = Inl TypeError"

text \<open>\<^verbatim>\<open>item[key]\<close> with a string key: a missing key of a dict is a KeyError.\<close>

fun subscript :: "json \<Rightarrow> string \<Rightarrow> exn + json" where
  "subscript (JObj kvs) k = (case map_of kvs k of None \<Rightarrow> Inl (KeyError k) | Some v \<Rightarrow> Inr v)"
| "subscript _ k = Inl TypeError"

text \<open>\<^verbatim>\<open>{'nim': item['nim'], 'nama_program_studi': item['nama_program_studi']}\<close>\<close>

definition make_record :: "json \<Rightarrow> exn + student" where
  "make_record item =
     (case subscript item ''nim'' of
        Inl e \<Rightarrow> Inl e
      | Inr n \<Rightarrow>
          (case subscript item ''nama_program_studi'' of
             Inl e \<Rightarrow> Inl e
           | Inr p \<Rightarrow> Inr \<lparr>nim = n, nama_program_studi = p\<rparr>))"

text \<open>
  The \<^verbatim>\<open>for\<close> loop of a page. A \<^verbatim>\<open>yield\<close> hands the record to the consumer
  \<open>emit\<close> before the next item is looked at; an exception of the consumer
  ends the loop like one of the loop's own.
\<close>

fun yield_items :: "(student \<Rightarrow> 'd \<Rightarrow> 'd outcome) \<Rightarrow> json list \<Rightarrow> 'd \<Rightarrow> 'd outcome" where
  "yield_items emit [] d = Ok d"
| "yield_items emit (item # items) d =
     (case make_record item of
        Inl e \<Rightarrow> Raise e d
      | Inr r \<Rightarrow>
          (case emit r d of
             Raise e d' \<Rightarrow> Raise e d'
           | Ok d' \<Rightarrow> yield_items emit items d'))"

text \<open>The consumer that only collects what is yielded.\<close>

definition collect :: "student \<Rightarrow> student list \<Rightarrow> student list outcome" where
  "collect r ys = Ok (ys @ [r])"

datatype status = Running | Returned | Raised exn

text \<open>The only line the script prints: \<^verbatim>\<open>Request failed with status code {n}\<close>.\<close>

datatype line = Request_failed_with_status_code int

text \<open>
  The state of one call of \<^verbatim>\<open>process\<close>: \<open>offset\<close> is \<^verbatim>\<open>variables['offset']\<close>,
  \<open>requests\<close> the requests posted so far, \<open>printed\<close> the lines printed so
  far, \<open>downstream\<close> the state of the consumer of the yielded records.
\<close>

record 'd fetch_state =
  offset :: int
  requests :: "request list"
  printed :: "line list"
  downstream :: 'd
  status :: status

text \<open>One iteration of \<^verbatim>\<open>while True\<close>.\<close>

definition fetch_step ::
  "(student \<Rightarrow> 'd \<Rightarrow> 'd outcome) \<Rightarrow> api \<Rightarrow> int \<Rightarrow> 'd fetch_state \<Rightarrow> 'd fetch_state" where
  "fetch_step emit server query_limit s =
     (if status s \<noteq> Running then s
      else
        let req = \<lparr>req_limit = query_limit, req_offset = offset s\<rparr>;
            s1 = s\<lparr>requests := requests s @ [req]\<rparr>
        in case server (length (requests s)) req of
             Unreachable \<Rightarrow> s1\<lparr>status := Raised RequestException\<rparr>
           | Reply status_code body \<Rightarrow>
               if status_code \<noteq> 200
               then s1\<lparr>printed := printed s @ [Request_failed_with_status_code status_code],
                       status := Returned\<rparr>
               else
                 (case body of
                    None \<Rightarrow> s1\<lparr>status := Raised JSONDecodeError\<rparr>
                  | Some data \<Rightarrow>
                      (case result_data data of
                         Inl e \<Rightarrow> s1\<lparr>status := Raised e\<rparr>
                       | Inr rd \<Rightarrow>
                           if \<not> truthy rd then s1\<lparr>status := Returned\<rparr>
                           else
                             (case iter_items rd of
                                Inl e \<Rightarrow> s1\<lparr>status := Raised e\<rparr>
                              | Inr items \<Rightarrow>
                                  (case yield_items emit items (downstream s) of
                                     Raise e d \<Rightarrow> s1\<lparr>downstream := d, status := Raised e\<rparr>
                                   | Ok d \<Rightarrow>
                                       s1\<lparr>downstream := d,
                                          offset := offset s + query_limit\<rparr>)))))"

text \<open>The loop runs until an iteration leaves it; it need not.\<close>

partial_function (option) fetch_loop ::
  "(student \<Rightarrow> 'd \<Rightarrow> 'd outcome) \<Rightarrow> api \<Rightarrow> int \<Rightarrow> 'd fetch_state \<Rightarrow> 'd fetch_state option" where
  "fetch_loop emit server query_limit s =
     (if status s \<noteq> Running then Some s
      else fetch_loop emit server query_limit (fetch_step emit server query_limit s))"

declare fetch_loop.simps [code]

text \<open>\<^verbatim>\<open>process(element)\<close> with \<^verbatim>\<open>element['offset']\<close> the starting offset.\<close>

definition fetch_init :: "int \<Rightarrow> 'd \<Rightarrow> 'd fetch_state" where
  "fetch_init start d =
     \<lparr>offset = start, requests = [], printed = [], downstream = d, status = Running\<rparr>"

definition FetchGraphQLData_process ::
  "(student \<Rightarrow> 'd \<Rightarrow> 'd outcome) \<Rightarrow> api \<Rightarrow> int \<Rightarrow> int \<Rightarrow> 'd \<Rightarrow> 'd fetch_state option" where
  "FetchGraphQLData_process emit server query_limit start d =
     fetch_loop emit server query_limit (fetch_init start d)"

section \<open>InsertToMySQL\<close>

text \<open>
  The calls that leave the process on the insert side: \<^verbatim>\<open>tunnel.start()\<close>,
  \<^verbatim>\<open>mysql.connector.connect\<close>, \<^verbatim>\<open>conn.cursor()\<close>, \<^verbatim>\<open>cursor.execute\<close> with its two
  parameters, \<^verbatim>\<open>conn.commit()\<close>, \<^verbatim>\<open>cursor.close()\<close>, \<^verbatim>\<open>conn.close()\<close> and
  \<^verbatim>\<open>tunnel.stop()\<close>.
\<close>

datatype op =
    TunnelStart
  | Connect
  | OpenCursor
  | Execute json json
  | Commit
  | CursorClose
  | ConnClose
  | TunnelStop

text \<open>The calls that give a resource back.\<close>

fun is_release :: "op \<Rightarrow> bool" where
  "is_release CursorClose = True"
| "is_release ConnClose = True"
| "is_release TunnelStop = True"
| "is_release _ = False"

text \<open>
  Which calls fail is decided outside the script: \<open>env k a\<close> says that the \<open>k\<close>-th
  call of the run, being \<open>a\<close>, raises.
\<close>

type_synonym faults = "nat \<Rightarrow> op \<Rightarrow> bool"

text \<open>A field of the DoFn: \<^verbatim>\<open>None\<close>, a live object, or an object that was closed.\<close>

datatype handle = Unset | Live | Closed

text \<open>
  The DoFn's fields \<^verbatim>\<open>tunnel\<close>, \<^verbatim>\<open>conn\<close>, \<^verbatim>\<open>cursor\<close>, the rows inserted in the
  open transaction (\<open>pending\<close>), the committed rows of the table \<^verbatim>\<open>students\<close>, and
  the calls made so far, each with whether it succeeded.
\<close>

record sink =
  tunnel :: handle
  conn :: handle
  cursor :: handle
  pending :: "student list"
  students :: "student list"
  trace :: "(op \<times> bool) list"

definition call :: "faults \<Rightarrow> op \<Rightarrow> sink \<Rightarrow> bool \<times> sink" where
  "call env a w =
     (let ok = \<not> env (length (trace w)) a
      in (ok, w\<lparr>trace := trace w @ [(a, ok)]\<rparr>))"

definition open_ssh_tunnel :: "faults \<Rightarrow> sink \<Rightarrow> sink outcome" where
  "open_ssh_tunnel env w =
     (case call env TunnelStart w of
        (ok, w1) \<Rightarrow> if ok then Ok (w1\<lparr>tunnel := Live\<rparr>) else Raise SSHTunnelError w1)"

definition start_bundle :: "faults \<Rightarrow> sink \<Rightarrow> sink outcome" where
  "start_bundle env w =
     (case open_ssh_tunnel env w of
        Raise e w1 \<Rightarrow> Raise e w1
      | Ok w1 \<Rightarrow>
          (case call env Connect w1 of
             (ok, w2) \<Rightarrow>
               if \<not> ok then Raise MySQLError w2
               else
                 (case call env OpenCursor (w2\<lparr>conn := Live\<rparr>) of
                    (ok', w3) \<Rightarrow>
                      if \<not> ok' then Raise MySQLError w3
                      else Ok (w3\<lparr>cursor := Live\<rparr>))))"

text \<open>
  Modelled from the spec: the declaration of the table \<^verbatim>\<open>students\<close> is not in the
  source. The spec has "a table keyed by the Record's natural identifier", so
  \<^verbatim>\<open>INSERT IGNORE\<close> adds no row when a row with the same \<^verbatim>\<open>nim\<close> is in the table or
  in the open transaction.
\<close>

definition insert_data_to_mysql :: "faults \<Rightarrow> json \<Rightarrow> json \<Rightarrow> sink \<Rightarrow> sink outcome" where
  "insert_data_to_mysql env n p w =
     (if cursor w = Unset then Raise AttributeError w
      else
        (case call env (Execute n p) w of
           (ok, w1) \<Rightarrow>
             if \<not> ok then Raise MySQLError w1
             else if n \<in> set (map nim (students w @ pending w)) then Ok w1
             else Ok (w1\<lparr>pending := pending w @ [\<lparr>nim = n, nama_program_studi = p\<rparr>]\<rparr>)))"

definition InsertToMySQL_process :: "faults \<Rightarrow> student \<Rightarrow> sink \<Rightarrow> sink outcome" where
  "InsertToMySQL_process env element w =
     (case insert_data_to_mysql env (nim element) (nama_program_studi element) w of
        Raise e w1 \<Rightarrow> Raise e w1
      | Ok w1 \<Rightarrow>
          if conn w1 = Unset then Raise AttributeError w1
          else
            (case call env Commit w1 of
               (ok, w2) \<Rightarrow>
                 if \<not> ok then Raise MySQLError w2
                 else Ok (w2\<lparr>students := students w2 @ pending w2, pending := []\<rparr>)))"

text \<open>Closing the connection drops what was inserted and not committed.\<close>

definition finish_bundle :: "faults \<Rightarrow> sink \<Rightarrow> sink outcome" where
  "finish_bundle env w =
     (if cursor w = Unset then Raise AttributeError w
      else
        (case call env CursorClose w of
           (ok, w1) \<Rightarrow>
             if \<not> ok then Raise MySQLError w1
             else if conn w = Unset then Raise AttributeError (w1\<lparr>cursor := Closed\<rparr>)
             else
               (case call env ConnClose (w1\<lparr>cursor := Closed\<rparr>) of
                  (ok', w2) \<Rightarrow>
                    if \<not> ok' then Raise MySQLError w2
                    else if tunnel w = Unset
                    then Raise AttributeError (w2\<lparr>conn := Closed, pending := []\<rparr>)
                    else
                      (case call env TunnelStop (w2\<lparr>conn := Closed, pending := []\<rparr>) of
                         (ok'', w3) \<Rightarrow>
                           if \<not> ok'' then Raise SSHTunnelError w3
                           else Ok (w3\<lparr>tunnel := Closed\<rparr>)))))"

text \<open>
  The life of the DoFn over one bundle, as the runner drives it: \<^verbatim>\<open>start_bundle\<close>,
  \<^verbatim>\<open>process\<close> for each element in turn, \<^verbatim>\<open>finish_bundle\<close>. The methods catch
  nothing, so an exception leaves the bundle at the call that raised.
\<close>

fun process_elements :: "faults \<Rightarrow> student list \<Rightarrow> sink \<Rightarrow> sink outcome" where
  "process_elements env [] w = Ok w"
| "process_elements env (x # xs) w =
     (case InsertToMySQL_process env x w of
        Raise e w1 \<Rightarrow> Raise e w1
      | Ok w1 \<Rightarrow> process_elements env xs w1)"

definition InsertToMySQL_bundle :: "faults \<Rightarrow> student list \<Rightarrow> sink \<Rightarrow> sink outcome" where
  "InsertToMySQL_bundle env elements w =
     (case start_bundle env w of
        Raise e w1 \<Rightarrow> Raise e w1
      | Ok w1 \<Rightarrow>
          (case process_elements env elements w1 of
             Raise e w2 \<Rightarrow> Raise e w2
           | Ok w2 \<Rightarrow> finish_bundle env w2))"

section \<open>run\<close>

text \<open>
  What the element of the initial PCollection holds under \<^verbatim>\<open>'offset'\<close>: a number,
  or an option object (a ValueProvider) that nobody has asked for its value.
\<close>

datatype element_offset = Number int | Provider

text \<open>How a call of \<^verbatim>\<open>process\<close> on an element ended, for its caller.\<close>

record 'd ended =
  posted :: "request list"
  stdout :: "line list"
  consumer :: 'd
  how :: status

text \<open>
  \<^verbatim>\<open>process(element)\<close>: \<^verbatim>\<open>element['offset']\<close> goes into \<^verbatim>\<open>variables\<close> as it is. A
  number starts the loop above. An option object cannot be written as JSON: the
  first \<^verbatim>\<open>requests.post(..., json=payload)\<close> raises TypeError while it builds the
  request, before anything is sent.
\<close>

definition FetchGraphQLData_process_element ::
  "(student \<Rightarrow> 'd \<Rightarrow> 'd outcome) \<Rightarrow> api \<Rightarrow> int \<Rightarrow> element_offset \<Rightarrow> 'd \<Rightarrow> 'd ended option" where
  "FetchGraphQLData_process_element emit server query_limit element d =
     (case element of
        Provider \<Rightarrow> Some \<lparr>posted = [], stdout = [], consumer = d, how = Raised TypeError\<rparr>
      | Number start \<Rightarrow>
          (case FetchGraphQLData_process emit server query_limit start d of
             None \<Rightarrow> None
           | Some s \<Rightarrow>
               Some \<lparr>posted = requests s, stdout = printed s, consumer = downstream s,
                      how = status s\<rparr>))"

text \<open>
  The pipeline: \<^verbatim>\<open>Create([{'offset': pipeline_options.query_offset}])\<close> goes through
  \<^verbatim>\<open>FetchGraphQLData\<close>, whose output goes through \<^verbatim>\<open>InsertToMySQL\<close>. \<^verbatim>\<open>run()\<close> puts
  the option object itself into the element, without \<^verbatim>\<open>.get()\<close>, so the element
  is \<open>Provider\<close> whatever offset was asked for. The two stages run in one bundle:
  \<^verbatim>\<open>start_bundle\<close> first, each yielded record inserted before the generator is
  resumed, \<^verbatim>\<open>finish_bundle\<close> when the generator has returned.
\<close>

definition run :: "faults \<Rightarrow> api \<Rightarrow> int \<Rightarrow> sink \<Rightarrow> sink ended option" where
  "run env server query_limit w =
     (case start_bundle env w of
        Raise e wa \<Rightarrow> Some \<lparr>posted = [], stdout = [], consumer = wa, how = Raised e\<rparr>
      | Ok wa \<Rightarrow>
          (case FetchGraphQLData_process_element (InsertToMySQL_process env) server
                  query_limit Provider wa of
             None \<Rightarrow> None
           | Some r \<Rightarrow>
               if how r \<noteq> Returned then Some r
               else
                 (case finish_bundle env (consumer r) of
                    Raise e wb \<Rightarrow> Some (r\<lparr>consumer := wb, how := Raised e\<rparr>)
                  | Ok wb \<Rightarrow> Some (r\<lparr>consumer := wb\<rparr>))))"


section \<open>Concrete endpoints, faults and records\<close>

definition A1 :: json where
  "A1 = JObj [(''nim'', JStr ''A1''), (''nama_program_studi'', JStr ''Informatika'')]"

definition A2 :: json where
  "A2 = JObj [(''nim'', JStr ''A2''), (''nama_program_studi'', JStr ''Statistika'')]"


definition rec_A1 :: student where
  "rec_A1 = \<lparr>nim = JStr ''A1'', nama_program_studi = JStr ''Informatika''\<rparr>"

definition rec_A2 :: student where
  "rec_A2 = \<lparr>nim = JStr ''A2'', nama_program_studi = JStr ''Statistika''\<rparr>"

definition page_body :: "json list \<Rightarrow> json" where
  "page_body items = JObj [(''data'', JObj [(''data'', JArr items)])]"

text \<open>Two records at offset 0, nothing after them.\<close>

definition two_then_empty :: api where
  "two_then_empty k req =
     (if req_offset req = 0 then Reply 200 (Some (page_body [A1, A2]))
      else Reply 200 (Some (page_body [])))"


definition always_500 :: api where
  "always_500 k req = Reply 500 None"


text \<open>A GraphQL error document: status 200, no \<^verbatim>\<open>data\<close> member.\<close>

definition errors_body :: api where
  "errors_body k req = Reply 200 (Some (JObj [(''errors'', JArr [JStr ''unauthorized''])]))"

text \<open>Status 200 and a \<^verbatim>\<open>data\<close> member that holds no \<^verbatim>\<open>data\<close> list.\<close>

definition data_without_list :: api where
  "data_without_list k req = Reply 200 (Some (JObj [(''data'', JObj [(''total'', JNum 0)])]))"

definition no_faults :: faults where
  "no_faults k a = False"

definition fail_call :: "nat \<Rightarrow> faults" where
  "fail_call j k a = (k = j)"

definition fresh_sink :: sink where
  "fresh_sink =
     \<lparr>tunnel = Unset, conn = Unset, cursor = Unset, pending = [], students = [], trace = []\<rparr>"

section \<open>The loop and its iterations\<close>

lemma fetch_step_stopped: "status s \<noteq> Running \<Longrightarrow> fetch_step emit server l s = s"
  by (simp add: fetch_step_def)

lemma fetch_steps_stopped:
  "status s \<noteq> Running \<Longrightarrow> (fetch_step emit server l ^^ n) s = s"
  by (induction n) (simp_all add: fetch_step_stopped)

lemma fetch_loop_steps:
  "status ((fetch_step emit server l ^^ n) s) \<noteq> Running \<Longrightarrow>
   fetch_loop emit server l s = Some ((fetch_step emit server l ^^ n) s)"
proof (induction n arbitrary: s)
  case 0
  then show ?case by (simp add: fetch_loop.simps)
next
  case (Suc n)
  show ?case
  proof (cases "status s = Running")
    case True
    from Suc.prems have "status ((fetch_step emit server l ^^ n) (fetch_step emit server l s)) \<noteq> Running"
      by (simp add: funpow_swap1)
    from Suc.IH [OF this] True show ?thesis
      by (subst fetch_loop.simps) (simp add: funpow_swap1)
  next
    case False
    then show ?thesis
      by (subst fetch_loop.simps) (simp add: fetch_steps_stopped del: funpow.simps)
  qed
qed

lemma fetch_loop_one_step:
  assumes "status s = Running" and "status (fetch_step emit server l s) \<noteq> Running"
  shows "fetch_loop emit server l s = Some (fetch_step emit server l s)"
  using fetch_loop_steps [where n = "Suc 0" and s = s and emit = emit and server = server and l = l] assms by simp

lemma fetch_loop_Some:
  assumes run: "fetch_loop emit server l s = Some s'"
  shows "\<exists>n. s' = (fetch_step emit server l ^^ n) s \<and> status s' \<noteq> Running"
proof (rule fetch_loop.raw_induct
    [where P = "\<lambda>emit server l s s'. \<exists>n. s' = (fetch_step emit server l ^^ n) s \<and> status s' \<noteq> Running",
     OF _ run])
  fix loop :: "(student \<Rightarrow> 'a \<Rightarrow> 'a outcome) \<Rightarrow> api \<Rightarrow> int \<Rightarrow> 'a fetch_state \<Rightarrow> 'a fetch_state option"
  fix emit server l s s'
  assume IH: "\<And>emit server l s s'. loop emit server l s = Some s' \<Longrightarrow>
      \<exists>n. s' = (fetch_step emit server l ^^ n) s \<and> status s' \<noteq> Running"
  assume eq: "(if status s \<noteq> Running then Some s
      else loop emit server l (fetch_step emit server l s)) = Some s'"
  show "\<exists>n. s' = (fetch_step emit server l ^^ n) s \<and> status s' \<noteq> Running"
  proof (cases "status s = Running")
    case True
    with eq have "loop emit server l (fetch_step emit server l s) = Some s'"
      by simp
    from IH [OF this] obtain n
      where "s' = (fetch_step emit server l ^^ n) (fetch_step emit server l s)" "status s' \<noteq> Running"
      by blast
    then have "s' = (fetch_step emit server l ^^ Suc n) s \<and> status s' \<noteq> Running"
      by (simp add: funpow_swap1)
    then show ?thesis by blast
  next
    case False
    with eq have "s' = (fetch_step emit server l ^^ 0) s \<and> status s' \<noteq> Running" by simp
    then show ?thesis by blast
  qed
qed

lemma fetch_step_non200:
  assumes "status s = Running"
    and "server (length (requests s)) \<lparr>req_limit = l, req_offset = offset s\<rparr> = Reply code body"
    and "code \<noteq> 200"
  shows "fetch_step emit server l s =
         s\<lparr>requests := requests s @ [\<lparr>req_limit = l, req_offset = offset s\<rparr>],
           printed := printed s @ [Request_failed_with_status_code code],
           status := Returned\<rparr>"
  using assms by (simp add: fetch_step_def)

lemma fetch_step_200:
  assumes "status s = Running"
    and "server (length (requests s)) \<lparr>req_limit = l, req_offset = offset s\<rparr> = Reply 200 (Some body)"
    and "result_data body = Inr rd"
  shows "fetch_step emit server l s =
         (if \<not> truthy rd
          then s\<lparr>requests := requests s @ [\<lparr>req_limit = l, req_offset = offset s\<rparr>],
                 status := Returned\<rparr>
          else
            (case iter_items rd of
               Inl e \<Rightarrow> s\<lparr>requests := requests s @ [\<lparr>req_limit = l, req_offset = offset s\<rparr>],
                           status := Raised e\<rparr>
             | Inr items \<Rightarrow>
                 (case yield_items emit items (downstream s) of
                    Raise e d \<Rightarrow>
                      s\<lparr>requests := requests s @ [\<lparr>req_limit = l, req_offset = offset s\<rparr>],
                        downstream := d, status := Raised e\<rparr>
                  | Ok d \<Rightarrow>
                      s\<lparr>requests := requests s @ [\<lparr>req_limit = l, req_offset = offset s\<rparr>],
                        downstream := d, offset := offset s + l\<rparr>)))"
  using assms by (simp add: fetch_step_def Let_def)

section \<open>A response that is not 200\<close>

text \<open>
  C1, as amended: on a response whose status is not 200 the loop prints the
  status and ends normally. Nothing of that page reaches the consumer (so nothing
  is inserted or committed for it), no further request is posted, and no
  exception is raised: the call ends as it does at the end of the stream.
\<close>

theorem non200_stops_quietly:
  assumes "status s = Running"
    and "server (length (requests s)) \<lparr>req_limit = l, req_offset = offset s\<rparr> = Reply code body"
    and "code \<noteq> 200"
  shows "fetch_loop emit server l s =
         Some (s\<lparr>requests := requests s @ [\<lparr>req_limit = l, req_offset = offset s\<rparr>],
                 printed := printed s @ [Request_failed_with_status_code code],
                 status := Returned\<rparr>)"
proof -
  have "status (fetch_step emit server l s) \<noteq> Running"
    using assms by (simp add: fetch_step_non200)
  from fetch_loop_one_step [OF assms(1) this] show ?thesis
    using assms by (simp add: fetch_step_non200)
qed

text \<open>The endpoint that always answers 500, asked for 1000 records at offset 0.\<close>

theorem non200_stops_quietly_witness:
  "status (fetch_init 0 []) = Running \<and>
   always_500 (length (requests (fetch_init 0 []))) \<lparr>req_limit = 1000, req_offset = 0\<rparr> = Reply 500 None \<and>
   (500::int) \<noteq> 200 \<and>
   fetch_loop collect always_500 1000 (fetch_init 0 []) =
     Some \<lparr>offset = 0, requests = [\<lparr>req_limit = 1000, req_offset = 0\<rparr>],
            printed = [Request_failed_with_status_code 500], downstream = [],
            status = Returned\<rparr>"
  using non200_stops_quietly [of "fetch_init 0 []" always_500 1000 500 None collect]
  by (simp add: fetch_init_def always_500_def)

text \<open>
  C1 as stated fails: with an endpoint that answers 500, \<^verbatim>\<open>process\<close> called with
  offset 0 returns normally (\<open>Returned\<close>) after printing the status. No exception
  reaches its caller, which sees the same end as at the end of the stream.
\<close>

theorem non200_returns_counterexample:
  "FetchGraphQLData_process collect always_500 1000 0 [] =
     Some \<lparr>offset = 0, requests = [\<lparr>req_limit = 1000, req_offset = 0\<rparr>],
            printed = [Request_failed_with_status_code 500], downstream = [],
            status = Returned\<rparr>"
  by (simp add: FetchGraphQLData_process_def fetch_init_def fetch_loop.simps fetch_step_def
      always_500_def)

section \<open>The records of a page\<close>




section \<open>The end of the stream\<close>



section \<open>A 200 response without the expected shape\<close>

text \<open>
  C9, as amended: a 200 response whose body is a JSON object without the member
  \<^verbatim>\<open>data\<close>, or whose \<^verbatim>\<open>data\<close> member is an object without the member \<^verbatim>\<open>data\<close>,
  is taken for an empty record list (the defaults of the two \<^verbatim>\<open>get\<close> calls): the
  loop ends normally and nothing is raised.
\<close>

theorem absent_shape_is_end_of_stream:
  assumes "status s = Running"
    and "server (length (requests s)) \<lparr>req_limit = l, req_offset = offset s\<rparr> =
           Reply 200 (Some (JObj kvs))"
    and "map_of kvs ''data'' = None \<or>
         (\<exists>inner. map_of kvs ''data'' = Some (JObj inner) \<and> map_of inner ''data'' = None)"
  shows "fetch_loop emit server l s =
           Some (s\<lparr>requests := requests s @ [\<lparr>req_limit = l, req_offset = offset s\<rparr>],
                   status := Returned\<rparr>)"
proof -
  from assms(3) have "result_data (JObj kvs) = Inr (JArr [])"
    by (auto simp: result_data_def)
  with assms(1,2)
  have st: "fetch_step emit server l s =
      s\<lparr>requests := requests s @ [\<lparr>req_limit = l, req_offset = offset s\<rparr>], status := Returned\<rparr>"
    by (simp add: fetch_step_200)
  then have "status (fetch_step emit server l s) \<noteq> Running" by simp
  from fetch_loop_one_step [OF assms(1) this] st show ?thesis by simp
qed

text \<open>A GraphQL error document, and a \<^verbatim>\<open>data\<close> object without a list.\<close>

theorem absent_shape_is_end_of_stream_witness:
  "fetch_loop collect errors_body 1000 (fetch_init 0 []) =
     Some \<lparr>offset = 0, requests = [\<lparr>req_limit = 1000, req_offset = 0\<rparr>], printed = [],
            downstream = [], status = Returned\<rparr> \<and>
   fetch_loop collect data_without_list 1000 (fetch_init 0 []) =
     Some \<lparr>offset = 0, requests = [\<lparr>req_limit = 1000, req_offset = 0\<rparr>], printed = [],
            downstream = [], status = Returned\<rparr>"
  using absent_shape_is_end_of_stream [where emit = collect and server = errors_body
      and l = 1000 and s = "fetch_init 0 []"
      and kvs = "[(''errors'', JArr [JStr ''unauthorized''])]"]
    absent_shape_is_end_of_stream [where emit = collect and server = data_without_list
      and l = 1000 and s = "fetch_init 0 []"
      and kvs = "[(''data'', JObj [(''total'', JNum 0)])]"]
  by (simp add: fetch_init_def errors_body_def data_without_list_def)

text \<open>
  C9 as stated fails: the error document, status 200 and no \<^verbatim>\<open>data\<close>, ends the
  call normally (\<open>Returned\<close>), as the end of the stream does; no error is raised.
\<close>

theorem malformed_body_counterexample:
  "FetchGraphQLData_process collect errors_body 1000 0 [] =
     Some \<lparr>offset = 0, requests = [\<lparr>req_limit = 1000, req_offset = 0\<rparr>], printed = [],
            downstream = [], status = Returned\<rparr>"
  by (simp add: FetchGraphQLData_process_def fetch_init_def fetch_loop.simps fetch_step_def
      result_data_def errors_body_def)

section \<open>A record without a key\<close>



section \<open>The cursor\<close>

lemma fetch_step_requests:
  "status s = Running \<Longrightarrow>
   requests (fetch_step emit server l s) = requests s @ [\<lparr>req_limit = l, req_offset = offset s\<rparr>]"
  by (simp add: fetch_step_def Let_def split: reply.splits option.splits sum.splits outcome.splits)

lemma fetch_step_offset:
  "offset (fetch_step emit server l s) =
     (if status s = Running \<and> status (fetch_step emit server l s) = Running
      then offset s + l else offset s)"
  by (simp add: fetch_step_def Let_def split: reply.splits option.splits sum.splits outcome.splits)

lemma fetch_steps_paged:
  "requests ((fetch_step emit server l ^^ n) (fetch_init start d)) =
     map (\<lambda>k. \<lparr>req_limit = l, req_offset = start + int k * l\<rparr>)
       [0..<length (requests ((fetch_step emit server l ^^ n) (fetch_init start d)))] \<and>
   (status ((fetch_step emit server l ^^ n) (fetch_init start d)) = Running \<longrightarrow>
      offset ((fetch_step emit server l ^^ n) (fetch_init start d)) =
        start + int (length (requests ((fetch_step emit server l ^^ n) (fetch_init start d)))) * l)"
proof (induction n)
  case 0
  show ?case by (simp add: fetch_init_def)
next
  case (Suc n)
  define s where "s = (fetch_step emit server l ^^ n) (fetch_init start d)"
  from Suc have rq: "requests s =
      map (\<lambda>k. \<lparr>req_limit = l, req_offset = start + int k * l\<rparr>) [0..<length (requests s)]"
    and off: "status s = Running \<Longrightarrow> offset s = start + int (length (requests s)) * l"
    by (simp_all add: s_def)
  have step: "(fetch_step emit server l ^^ Suc n) (fetch_init start d) = fetch_step emit server l s"
    by (simp add: s_def)
  show ?case
  proof (cases "status s = Running")
    case True
    have r': "requests (fetch_step emit server l s) =
        requests s @ [\<lparr>req_limit = l, req_offset = start + int (length (requests s)) * l\<rparr>]"
      using True off by (simp add: fetch_step_requests)
    have "requests (fetch_step emit server l s) =
        map (\<lambda>k. \<lparr>req_limit = l, req_offset = start + int k * l\<rparr>)
          [0..<Suc (length (requests s))]"
      unfolding r' using rq by simp
    moreover have "length (requests (fetch_step emit server l s)) = Suc (length (requests s))"
      by (simp add: r')
    moreover have "status (fetch_step emit server l s) = Running \<Longrightarrow>
        offset (fetch_step emit server l s) = start + int (Suc (length (requests s))) * l"
      using True off by (simp add: fetch_step_offset algebra_simps)
    ultimately show ?thesis unfolding step by simp
  next
    case False
    then have "fetch_step emit server l s = s" by (rule fetch_step_stopped)
    with rq False show ?thesis unfolding step by simp
  qed
qed

lemma arithmetic_offsets_sorted:
  fixes start l :: int
  shows "0 \<le> l \<Longrightarrow> sorted (map (\<lambda>k. start + int k * l) [0..<n])"
    and "0 < l \<Longrightarrow> sorted_wrt (<) (map (\<lambda>k. start + int k * l) [0..<n])"
  by (auto simp: sorted_wrt_iff_nth_less mult_right_mono)

text \<open>
  C5: in every state the loop goes through, and in the state it ends in, the
  \<open>k\<close>-th request asked for \<open>limit\<close> records at offset \<open>start + k * limit\<close>, and while
  the loop runs the cursor stands at the next such offset: each page that was
  fetched and handed on moved it by exactly \<open>limit\<close>. With a positive limit the
  requested offsets increase strictly, so no request goes back.
\<close>

theorem cursor_advances_by_limit:
  assumes "s = (fetch_step emit server l ^^ n) (fetch_init start d) \<or>
           FetchGraphQLData_process emit server l start d = Some s"
  shows "requests s =
           map (\<lambda>k. \<lparr>req_limit = l, req_offset = start + int k * l\<rparr>) [0..<length (requests s)] \<and>
         (status s = Running \<longrightarrow> offset s = start + int (length (requests s)) * l) \<and>
         (0 \<le> l \<longrightarrow> sorted (map req_offset (requests s))) \<and>
         (0 < l \<longrightarrow> sorted_wrt (<) (map req_offset (requests s)))"
proof -
  from assms obtain m where s: "s = (fetch_step emit server l ^^ m) (fetch_init start d)"
    by (auto simp: FetchGraphQLData_process_def dest: fetch_loop_Some)
  have rq: "requests s =
      map (\<lambda>k. \<lparr>req_limit = l, req_offset = start + int k * l\<rparr>) [0..<length (requests s)]"
    and off: "status s = Running \<longrightarrow> offset s = start + int (length (requests s)) * l"
    unfolding s using fetch_steps_paged [where emit = emit and server = server and l = l
        and n = m and start = start and d = d] by blast+
  have "map req_offset (requests s) = map (\<lambda>k. start + int k * l) [0..<length (requests s)]"
    by (subst rq) (simp add: comp_def)
  with rq off show ?thesis
    by (simp add: arithmetic_offsets_sorted)
qed

text \<open>The call over the endpoint with two records: requests at offsets 0 and 2.\<close>

theorem cursor_advances_by_limit_witness:
  "FetchGraphQLData_process collect two_then_empty 2 0 [] =
     Some \<lparr>offset = 2, requests = [\<lparr>req_limit = 2, req_offset = 0\<rparr>, \<lparr>req_limit = 2, req_offset = 2\<rparr>],
            printed = [], downstream = [rec_A1, rec_A2], status = Returned\<rparr> \<and>
   (0::int) \<le> 2 \<and> (0::int) < 2 \<and>
   sorted_wrt (<) (map req_offset [\<lparr>req_limit = 2, req_offset = 0\<rparr>, \<lparr>req_limit = 2, req_offset = 2::int\<rparr>])"
  using cursor_advances_by_limit [where emit = "collect" and server = "two_then_empty" and l = "2"
      and start = "0" and d = "[]" and n = "0" and s =
      "\<lparr>offset = 2, requests = [\<lparr>req_limit = 2, req_offset = 0\<rparr>, \<lparr>req_limit = 2, req_offset = 2\<rparr>],
            printed = [], downstream = [rec_A1, rec_A2], status = Returned\<rparr>"]
  by (simp add: FetchGraphQLData_process_def fetch_init_def fetch_loop.simps fetch_step_def
      result_data_def make_record_def collect_def two_then_empty_def page_body_def A1_def A2_def
      rec_A1_def rec_A2_def)

section \<open>The calls of a bundle\<close>

lemma start_bundle_Ok:
  assumes "start_bundle env w = Ok w1"
  shows "w1 = w\<lparr>trace := trace w @ [(TunnelStart, True), (Connect, True), (OpenCursor, True)],
               tunnel := Live, conn := Live, cursor := Live\<rparr>"
  using assms
  by (auto simp: start_bundle_def open_ssh_tunnel_def call_def Let_def split: if_splits)

lemma start_bundle_trace:
  "\<exists>evs. trace (state_of (start_bundle env w)) = trace w @ evs \<and> (\<forall>ev\<in>set evs. \<not> is_release (fst ev))"
  by (auto simp: start_bundle_def open_ssh_tunnel_def call_def Let_def)

lemma process_trace:
  "\<exists>evs. trace (state_of (InsertToMySQL_process env x w)) = trace w @ evs \<and>
         (\<forall>ev\<in>set evs. \<not> is_release (fst ev)) \<and>
         length (filter (\<lambda>ev. ev = (Commit, True)) evs) =
           (case InsertToMySQL_process env x w of Ok w' \<Rightarrow> 1 | Raise e w' \<Rightarrow> 0)"
  by (auto simp: InsertToMySQL_process_def insert_data_to_mysql_def call_def Let_def)

lemma process_handles:
  "tunnel (state_of (InsertToMySQL_process env x w)) = tunnel w \<and>
   conn (state_of (InsertToMySQL_process env x w)) = conn w \<and>
   cursor (state_of (InsertToMySQL_process env x w)) = cursor w"
  by (auto simp: InsertToMySQL_process_def insert_data_to_mysql_def call_def Let_def)

lemma process_elements_trace:
  "\<exists>evs. trace (state_of (process_elements env xs w)) = trace w @ evs \<and>
         (\<forall>ev\<in>set evs. \<not> is_release (fst ev))"
proof (induction xs arbitrary: w)
  case Nil
  show ?case by simp
next
  case (Cons x xs)
  obtain evs where evs: "trace (state_of (InsertToMySQL_process env x w)) = trace w @ evs"
    "\<forall>ev\<in>set evs. \<not> is_release (fst ev)"
    using process_trace [of env x w] by blast
  show ?case
  proof (cases "InsertToMySQL_process env x w")
    case (Raise e w1)
    with evs show ?thesis by auto
  next
    case (Ok w1)
    from Cons.IH [of w1] obtain evs' where
      "trace (state_of (process_elements env xs w1)) = trace w1 @ evs'"
      "\<forall>ev\<in>set evs'. \<not> is_release (fst ev)" by blast
    with evs Ok have "trace (state_of (process_elements env (x # xs) w)) = trace w @ (evs @ evs') \<and>
        (\<forall>ev\<in>set (evs @ evs'). \<not> is_release (fst ev))"
      by auto
    then show ?thesis by blast
  qed
qed

lemma process_elements_handles:
  "tunnel (state_of (process_elements env xs w)) = tunnel w \<and>
   conn (state_of (process_elements env xs w)) = conn w \<and>
   cursor (state_of (process_elements env xs w)) = cursor w"
proof (induction xs arbitrary: w)
  case Nil
  show ?case by simp
next
  case (Cons x xs)
  show ?case
  proof (cases "InsertToMySQL_process env x w")
    case (Raise e w1)
    with process_handles [of env x w] show ?thesis by simp
  next
    case (Ok w1)
    with process_handles [of env x w] Cons.IH [of w1] show ?thesis by simp
  qed
qed

lemma finish_bundle_trace:
  "\<exists>evs. trace (state_of (finish_bundle env w)) = trace w @ evs \<and>
     evs \<in> {[], [(CursorClose, False)], [(CursorClose, True)],
            [(CursorClose, True), (ConnClose, False)],
            [(CursorClose, True), (ConnClose, True)],
            [(CursorClose, True), (ConnClose, True), (TunnelStop, False)],
            [(CursorClose, True), (ConnClose, True), (TunnelStop, True)]}"
  by (simp add: finish_bundle_def call_def Let_def)

lemma finish_bundle_Ok:
  assumes "finish_bundle env w = Ok w'"
  shows "w' = w\<lparr>trace := trace w @ [(CursorClose, True), (ConnClose, True), (TunnelStop, True)],
               cursor := Closed, conn := Closed, pending := [], tunnel := Closed\<rparr>"
  using assms
  by (auto simp: finish_bundle_def call_def Let_def split: if_splits)

lemma split_past_prefix:
  assumes "nr @ evs = pre @ x # post" and "x \<notin> set nr"
  shows "\<exists>pre'. pre = nr @ pre' \<and> evs = pre' @ x # post"
  using assms
  by (auto simp: append_eq_append_conv2 append_eq_Cons_conv)

lemma release_order:
  assumes "evs \<in> {[], [(CursorClose, False)], [(CursorClose, True)],
            [(CursorClose, True), (ConnClose, False)],
            [(CursorClose, True), (ConnClose, True)],
            [(CursorClose, True), (ConnClose, True), (TunnelStop, False)],
            [(CursorClose, True), (ConnClose, True), (TunnelStop, True)]}"
    and "evs = pre @ (TunnelStop, b) # post"
  shows "(ConnClose, True) \<in> set pre"
  using assms
  by (auto simp: append_eq_Cons_conv Cons_eq_append_conv)

lemma bundle_trace:
  "\<exists>nr evs. trace (state_of (InsertToMySQL_bundle env xs w)) = trace w @ nr @ evs \<and>
     (\<forall>ev\<in>set nr. \<not> is_release (fst ev)) \<and>
     evs \<in> {[], [(CursorClose, False)], [(CursorClose, True)],
            [(CursorClose, True), (ConnClose, False)],
            [(CursorClose, True), (ConnClose, True)],
            [(CursorClose, True), (ConnClose, True), (TunnelStop, False)],
            [(CursorClose, True), (ConnClose, True), (TunnelStop, True)]}"
proof (cases "start_bundle env w")
  case (Raise e w1)
  with start_bundle_trace [of env w] obtain nr where
    "trace (state_of (InsertToMySQL_bundle env xs w)) = trace w @ nr @ []"
    "\<forall>ev\<in>set nr. \<not> is_release (fst ev)"
    by (auto simp: InsertToMySQL_bundle_def)
  then show ?thesis by blast
next
  case (Ok w1)
  with start_bundle_trace [of env w] obtain e1 where e1: "trace w1 = trace w @ e1"
    "\<forall>ev\<in>set e1. \<not> is_release (fst ev)" by auto
  from process_elements_trace [of env xs w1] obtain e2 where
    e2: "trace (state_of (process_elements env xs w1)) = trace w1 @ e2"
    "\<forall>ev\<in>set e2. \<not> is_release (fst ev)" by blast
  show ?thesis
  proof (cases "process_elements env xs w1")
    case (Raise e w2)
    with Ok e1 e2 have "trace (state_of (InsertToMySQL_bundle env xs w)) = trace w @ (e1 @ e2) @ []"
      "\<forall>ev\<in>set (e1 @ e2). \<not> is_release (fst ev)"
      by (auto simp: InsertToMySQL_bundle_def)
    then show ?thesis by blast
  next
    case ok2: (Ok w2)
    from finish_bundle_trace [of env w2] obtain e3 where
      e3: "trace (state_of (finish_bundle env w2)) = trace w2 @ e3"
      "e3 \<in> {[], [(CursorClose, False)], [(CursorClose, True)],
            [(CursorClose, True), (ConnClose, False)],
            [(CursorClose, True), (ConnClose, True)],
            [(CursorClose, True), (ConnClose, True), (TunnelStop, False)],
            [(CursorClose, True), (ConnClose, True), (TunnelStop, True)]}" by blast
    from Ok ok2 e1 e2 e3(1)
    have "trace (state_of (InsertToMySQL_bundle env xs w)) = trace w @ (e1 @ e2) @ e3"
      "\<forall>ev\<in>set (e1 @ e2). \<not> is_release (fst ev)"
      by (auto simp: InsertToMySQL_bundle_def)
    with e3(2) show ?thesis by blast
  qed
qed

section \<open>The order of the release\<close>

text \<open>
  C7: whenever \<^verbatim>\<open>tunnel.stop()\<close> is called, in \<^verbatim>\<open>finish_bundle\<close> entered in any state
  or anywhere in a bundle, and whatever calls fail, \<^verbatim>\<open>conn.close()\<close> has returned
  before it: the tunnel is not torn down while the database handle is open.
\<close>

theorem db_closed_before_tunnel_stop:
  assumes "trace (state_of (finish_bundle env w)) = trace w @ pre @ (TunnelStop, b) # post \<or>
           trace (state_of (InsertToMySQL_bundle env xs w)) = trace w @ pre @ (TunnelStop, b) # post"
  shows "(ConnClose, True) \<in> set pre"
  using assms
proof
  assume a: "trace (state_of (finish_bundle env w)) = trace w @ pre @ (TunnelStop, b) # post"
  from finish_bundle_trace [of env w] obtain evs where
    evs: "trace (state_of (finish_bundle env w)) = trace w @ evs"
    "evs \<in> {[], [(CursorClose, False)], [(CursorClose, True)],
            [(CursorClose, True), (ConnClose, False)],
            [(CursorClose, True), (ConnClose, True)],
            [(CursorClose, True), (ConnClose, True), (TunnelStop, False)],
            [(CursorClose, True), (ConnClose, True), (TunnelStop, True)]}" by blast
  from a evs(1) have "evs = pre @ (TunnelStop, b) # post" by simp
  with evs(2) show ?thesis by (rule release_order)
next
  assume a: "trace (state_of (InsertToMySQL_bundle env xs w)) = trace w @ pre @ (TunnelStop, b) # post"
  from bundle_trace [of env xs w] obtain nr evs where
    t: "trace (state_of (InsertToMySQL_bundle env xs w)) = trace w @ nr @ evs"
    and nr: "\<forall>ev\<in>set nr. \<not> is_release (fst ev)"
    and evs: "evs \<in> {[], [(CursorClose, False)], [(CursorClose, True)],
            [(CursorClose, True), (ConnClose, False)],
            [(CursorClose, True), (ConnClose, True)],
            [(CursorClose, True), (ConnClose, True), (TunnelStop, False)],
            [(CursorClose, True), (ConnClose, True), (TunnelStop, True)]}" by blast
  from a t have eq: "nr @ evs = pre @ (TunnelStop, b) # post" by simp
  from nr have "(TunnelStop, b) \<notin> set nr" by force
  from split_past_prefix [OF eq this] obtain pre' where
    p: "pre = nr @ pre'" "evs = pre' @ (TunnelStop, b) # post" by blast
  from release_order [OF evs p(2)] p(1) show ?thesis by simp
qed

text \<open>A bundle of one record in which no call fails.\<close>

theorem db_closed_before_tunnel_stop_witness:
  "trace (state_of (InsertToMySQL_bundle no_faults [rec_A1] fresh_sink)) =
     trace fresh_sink @
       [(TunnelStart, True), (Connect, True), (OpenCursor, True),
        (Execute (JStr ''A1'') (JStr ''Informatika''), True), (Commit, True),
        (CursorClose, True), (ConnClose, True)] @ (TunnelStop, True) # [] \<and>
   (ConnClose, True) \<in> set [(TunnelStart, True), (Connect, True), (OpenCursor, True),
        (Execute (JStr ''A1'') (JStr ''Informatika''), True), (Commit, True),
        (CursorClose, True), (ConnClose, True)]"
  using db_closed_before_tunnel_stop [where env = no_faults and xs = "[rec_A1]" and w = fresh_sink
      and b = True and post = "[]" and pre = "[(TunnelStart, True), (Connect, True), (OpenCursor, True),
        (Execute (JStr ''A1'') (JStr ''Informatika''), True), (Commit, True),
        (CursorClose, True), (ConnClose, True)]"]
  by (simp add: InsertToMySQL_bundle_def start_bundle_def open_ssh_tunnel_def call_def
      InsertToMySQL_process_def insert_data_to_mysql_def finish_bundle_def no_faults_def
      fresh_sink_def rec_A1_def)

section \<open>The release of the lease\<close>

text \<open>
  C4, as amended: once \<^verbatim>\<open>start_bundle\<close> has opened the tunnel and the connection,
  a bundle that ends without an exception has released them exactly once, at its
  end: cursor closed, connection closed, tunnel stopped, each called once. When
  an insert or a commit raises, the exception leaves the bundle and nothing is
  released: no release call is made, and cursor, connection and tunnel stay open.
\<close>

theorem lease_released_once_when_nothing_raises:
  assumes "start_bundle env w = Ok wa"
  shows "(\<forall>wc. InsertToMySQL_bundle env xs w = Ok wc \<longrightarrow>
            filter (\<lambda>ev. is_release (fst ev)) (drop (length (trace w)) (trace wc)) =
              [(CursorClose, True), (ConnClose, True), (TunnelStop, True)] \<and>
            cursor wc = Closed \<and> conn wc = Closed \<and> tunnel wc = Closed) \<and>
         (\<forall>e wb. process_elements env xs wa = Raise e wb \<longrightarrow>
            InsertToMySQL_bundle env xs w = Raise e wb \<and>
            filter (\<lambda>ev. is_release (fst ev)) (drop (length (trace w)) (trace wb)) = [] \<and>
            cursor wb = Live \<and> conn wb = Live \<and> tunnel wb = Live)"
proof -
  from start_bundle_Ok [OF assms]
  have wa: "trace wa = trace w @ [(TunnelStart, True), (Connect, True), (OpenCursor, True)]"
    "cursor wa = Live" "conn wa = Live" "tunnel wa = Live"
    by simp_all
  from process_elements_trace [of env xs wa] obtain e2 where
    e2: "trace (state_of (process_elements env xs wa)) = trace wa @ e2"
    "\<forall>ev\<in>set e2. \<not> is_release (fst ev)" by blast
  from e2(2) have f2: "filter (\<lambda>ev. is_release (fst ev)) e2 = []"
    by (simp add: filter_empty_conv)
  have h2: "cursor (state_of (process_elements env xs wa)) = Live"
    "conn (state_of (process_elements env xs wa)) = Live"
    "tunnel (state_of (process_elements env xs wa)) = Live"
    using process_elements_handles [of env xs wa] wa by simp_all
  have ok: "filter (\<lambda>ev. is_release (fst ev)) (drop (length (trace w)) (trace wc)) =
        [(CursorClose, True), (ConnClose, True), (TunnelStop, True)] \<and>
      cursor wc = Closed \<and> conn wc = Closed \<and> tunnel wc = Closed"
    if b: "InsertToMySQL_bundle env xs w = Ok wc" for wc
  proof -
    from b assms obtain wb where wb: "process_elements env xs wa = Ok wb"
      "finish_bundle env wb = Ok wc"
      by (auto simp: InsertToMySQL_bundle_def split: outcome.splits)
    from finish_bundle_Ok [OF wb(2)]
    have "trace wc = trace wb @ [(CursorClose, True), (ConnClose, True), (TunnelStop, True)]"
      "cursor wc = Closed" "conn wc = Closed" "tunnel wc = Closed"
      by simp_all
    moreover from e2(1) wb(1) wa(1)
    have "trace wb = trace w @ [(TunnelStart, True), (Connect, True), (OpenCursor, True)] @ e2"
      by simp
    ultimately show ?thesis using f2 by simp
  qed
  have bad: "InsertToMySQL_bundle env xs w = Raise e wb \<and>
      filter (\<lambda>ev. is_release (fst ev)) (drop (length (trace w)) (trace wb)) = [] \<and>
      cursor wb = Live \<and> conn wb = Live \<and> tunnel wb = Live"
    if r: "process_elements env xs wa = Raise e wb" for e wb
  proof -
    from r assms have "InsertToMySQL_bundle env xs w = Raise e wb"
      by (simp add: InsertToMySQL_bundle_def)
    moreover from e2(1) r wa(1)
    have "trace wb = trace w @ [(TunnelStart, True), (Connect, True), (OpenCursor, True)] @ e2"
      by simp
    moreover from h2 r have "cursor wb = Live" "conn wb = Live" "tunnel wb = Live"
      by simp_all
    ultimately show ?thesis using f2 by simp
  qed
  from ok bad show ?thesis by blast
qed

text \<open>A bundle of one record: without a fault, and with the insert failing.\<close>

theorem lease_released_once_when_nothing_raises_witness:
  "start_bundle no_faults fresh_sink =
     Ok \<lparr>tunnel = Live, conn = Live, cursor = Live, pending = [], students = [],
          trace = [(TunnelStart, True), (Connect, True), (OpenCursor, True)]\<rparr> \<and>
   InsertToMySQL_bundle no_faults [rec_A1] fresh_sink =
     Ok \<lparr>tunnel = Closed, conn = Closed, cursor = Closed, pending = [], students = [rec_A1],
         trace = [(TunnelStart, True), (Connect, True), (OpenCursor, True),
                  (Execute (JStr ''A1'') (JStr ''Informatika''), True), (Commit, True),
                  (CursorClose, True), (ConnClose, True), (TunnelStop, True)]\<rparr> \<and>
   start_bundle (fail_call 3) fresh_sink =
     Ok \<lparr>tunnel = Live, conn = Live, cursor = Live, pending = [], students = [],
          trace = [(TunnelStart, True), (Connect, True), (OpenCursor, True)]\<rparr> \<and>
   process_elements (fail_call 3) [rec_A1]
       \<lparr>tunnel = Live, conn = Live, cursor = Live, pending = [], students = [],
          trace = [(TunnelStart, True), (Connect, True), (OpenCursor, True)]\<rparr> =
     Raise MySQLError
       \<lparr>tunnel = Live, conn = Live, cursor = Live, pending = [], students = [],
          trace = [(TunnelStart, True), (Connect, True), (OpenCursor, True),
                   (Execute (JStr ''A1'') (JStr ''Informatika''), False)]\<rparr> \<and>
   InsertToMySQL_bundle (fail_call 3) [rec_A1] fresh_sink =
     Raise MySQLError
       \<lparr>tunnel = Live, conn = Live, cursor = Live, pending = [], students = [],
          trace = [(TunnelStart, True), (Connect, True), (OpenCursor, True),
                   (Execute (JStr ''A1'') (JStr ''Informatika''), False)]\<rparr>"
proof -
  have s0: "start_bundle no_faults fresh_sink =
     Ok \<lparr>tunnel = Live, conn = Live, cursor = Live, pending = [], students = [],
          trace = [(TunnelStart, True), (Connect, True), (OpenCursor, True)]\<rparr>"
    by (simp add: start_bundle_def open_ssh_tunnel_def call_def no_faults_def fresh_sink_def)
  have b0: "InsertToMySQL_bundle no_faults [rec_A1] fresh_sink =
     Ok \<lparr>tunnel = Closed, conn = Closed, cursor = Closed, pending = [], students = [rec_A1],
         trace = [(TunnelStart, True), (Connect, True), (OpenCursor, True),
                  (Execute (JStr ''A1'') (JStr ''Informatika''), True), (Commit, True),
                  (CursorClose, True), (ConnClose, True), (TunnelStop, True)]\<rparr>"
    by (simp add: InsertToMySQL_bundle_def start_bundle_def open_ssh_tunnel_def call_def
      InsertToMySQL_process_def insert_data_to_mysql_def finish_bundle_def no_faults_def
      fresh_sink_def rec_A1_def)
  have s3: "start_bundle (fail_call 3) fresh_sink =
     Ok \<lparr>tunnel = Live, conn = Live, cursor = Live, pending = [], students = [],
          trace = [(TunnelStart, True), (Connect, True), (OpenCursor, True)]\<rparr>"
    by (simp add: start_bundle_def open_ssh_tunnel_def call_def fail_call_def fresh_sink_def)
  have p3: "process_elements (fail_call 3) [rec_A1]
       \<lparr>tunnel = Live, conn = Live, cursor = Live, pending = [], students = [],
          trace = [(TunnelStart, True), (Connect, True), (OpenCursor, True)]\<rparr> =
     Raise MySQLError
       \<lparr>tunnel = Live, conn = Live, cursor = Live, pending = [], students = [],
          trace = [(TunnelStart, True), (Connect, True), (OpenCursor, True),
                   (Execute (JStr ''A1'') (JStr ''Informatika''), False)]\<rparr>"
    by (simp add: call_def InsertToMySQL_process_def insert_data_to_mysql_def fail_call_def
        rec_A1_def)
  from lease_released_once_when_nothing_raises [OF s3, of "[rec_A1]"] p3
  have "InsertToMySQL_bundle (fail_call 3) [rec_A1] fresh_sink =
     Raise MySQLError
       \<lparr>tunnel = Live, conn = Live, cursor = Live, pending = [], students = [],
          trace = [(TunnelStart, True), (Connect, True), (OpenCursor, True),
                   (Execute (JStr ''A1'') (JStr ''Informatika''), False)]\<rparr>"
    by blast
  with s0 b0 s3 p3 show ?thesis by blast
qed

text \<open>
  C4 as stated fails: the lease is acquired, the commit of the first record
  raises, and the bundle ends with no release call and all three handles open.
\<close>

theorem commit_raises_counterexample:
  "InsertToMySQL_bundle (fail_call 4) [rec_A1] fresh_sink =
     Raise MySQLError
       \<lparr>tunnel = Live, conn = Live, cursor = Live, pending = [rec_A1], students = [],
          trace = [(TunnelStart, True), (Connect, True), (OpenCursor, True),
                   (Execute (JStr ''A1'') (JStr ''Informatika''), True), (Commit, False)]\<rparr>"
  by (simp add: InsertToMySQL_bundle_def start_bundle_def open_ssh_tunnel_def call_def
      InsertToMySQL_process_def insert_data_to_mysql_def fail_call_def fresh_sink_def rec_A1_def)

section \<open>What is committed\<close>

lemma process_Ok:
  assumes "InsertToMySQL_process env x w = Ok w'" and "pending w = []"
  shows "pending w' = [] \<and>
         students w' = (if nim x \<in> set (map nim (students w)) then students w
                        else students w @ [x])"
  using assms
  by (auto simp: InsertToMySQL_process_def insert_data_to_mysql_def call_def Let_def
      split: if_splits)

lemma process_Raise:
  assumes "InsertToMySQL_process env x w = Raise e w'"
  shows "students w' = students w"
  using assms
  by (auto simp: InsertToMySQL_process_def insert_data_to_mysql_def call_def Let_def
      split: if_splits)

lemma process_elements_append:
  "process_elements env (xs @ ys) w =
     (case process_elements env xs w of
        Raise e w' \<Rightarrow> Raise e w'
      | Ok w' \<Rightarrow> process_elements env ys w')"
  by (induction xs arbitrary: w) (auto split: outcome.splits)

lemma process_elements_Ok:
  assumes "process_elements env xs w = Ok w'" and "pending w = []"
  shows "pending w' = [] \<and>
         nim ` set (students w') = nim ` set (students w) \<union> nim ` set xs \<and>
         (\<exists>evs. trace w' = trace w @ evs \<and>
            length (filter (\<lambda>ev. ev = (Commit, True)) evs) = length xs)"
  using assms
proof (induction xs arbitrary: w)
  case Nil
  then show ?case by simp
next
  case (Cons x xs)
  from Cons.prems(1) obtain wa where wa: "InsertToMySQL_process env x w = Ok wa"
    "process_elements env xs wa = Ok w'"
    by (auto split: outcome.splits)
  from process_Ok [OF wa(1) Cons.prems(2)]
  have pa: "pending wa = []"
    and sa: "nim ` set (students wa) = nim ` set (students w) \<union> {nim x}"
    by (auto split: if_splits)
  from process_trace [of env x w] wa(1) obtain e1 where
    e1: "trace wa = trace w @ e1" "length (filter (\<lambda>ev. ev = (Commit, True)) e1) = 1"
    by auto
  from Cons.IH [OF wa(2) pa] obtain e2 where
    r: "pending w' = []" "nim ` set (students w') = nim ` set (students wa) \<union> nim ` set xs"
    and e2: "trace w' = trace wa @ e2" "length (filter (\<lambda>ev. ev = (Commit, True)) e2) = length xs"
    by blast
  from e1 e2 have "trace w' = trace w @ (e1 @ e2) \<and>
      length (filter (\<lambda>ev. ev = (Commit, True)) (e1 @ e2)) = length (x # xs)"
    by simp
  then have "\<exists>evs. trace w' = trace w @ evs \<and>
      length (filter (\<lambda>ev. ev = (Commit, True)) evs) = length (x # xs)"
    by blast
  with r sa show ?case by auto
qed

text \<open>
  C2, as amended: \<^verbatim>\<open>process\<close> commits after every insert, so each record is a
  transaction of its own. When the insert or the commit of a record fails, the
  records handed over before it, of the same page or not, stay committed: one
  commit succeeded for each of them and their keys are in the table. The table
  is as the last commit left it; the script issues no rollback.
\<close>

theorem records_committed_one_by_one:
  assumes "pending w = []"
    and "process_elements env pre w = Ok wa"
    and "InsertToMySQL_process env x wa = Raise e wb"
  shows "process_elements env (pre @ x # post) w = Raise e wb \<and>
         students wb = students wa \<and>
         nim ` set pre \<subseteq> nim ` set (students wb) \<and>
         length (filter (\<lambda>ev. ev = (Commit, True)) (drop (length (trace w)) (trace wb))) =
           length pre"
proof -
  have run: "process_elements env (pre @ x # post) w = Raise e wb"
    using assms(2,3) by (simp add: process_elements_append)
  have same: "students wb = students wa"
    using assms(3) by (rule process_Raise)
  from process_elements_Ok [OF assms(2,1)] obtain e1 where
    keys: "nim ` set (students wa) = nim ` set (students w) \<union> nim ` set pre"
    and e1: "trace wa = trace w @ e1" "length (filter (\<lambda>ev. ev = (Commit, True)) e1) = length pre"
    by blast
  from process_trace [of env x wa] assms(3) obtain e2 where
    e2: "trace wb = trace wa @ e2" "length (filter (\<lambda>ev. ev = (Commit, True)) e2) = 0"
    by auto
  from e1 e2 have "length (filter (\<lambda>ev. ev = (Commit, True)) (drop (length (trace w)) (trace wb))) =
      length pre"
    by simp
  with run same keys show ?thesis by auto
qed

text \<open>Two records after \<^verbatim>\<open>start_bundle\<close>; the insert of the second one fails.\<close>

theorem records_committed_one_by_one_witness:
  "pending \<lparr>tunnel = Live, conn = Live, cursor = Live, pending = [], students = [],
             trace = [(TunnelStart, True), (Connect, True), (OpenCursor, True)]\<rparr> = [] \<and>
   process_elements (fail_call 5) [rec_A1]
       \<lparr>tunnel = Live, conn = Live, cursor = Live, pending = [], students = [],
          trace = [(TunnelStart, True), (Connect, True), (OpenCursor, True)]\<rparr> =
     Ok \<lparr>tunnel = Live, conn = Live, cursor = Live, pending = [], students = [rec_A1],
          trace = [(TunnelStart, True), (Connect, True), (OpenCursor, True),
                   (Execute (JStr ''A1'') (JStr ''Informatika''), True), (Commit, True)]\<rparr> \<and>
   InsertToMySQL_process (fail_call 5) rec_A2
       \<lparr>tunnel = Live, conn = Live, cursor = Live, pending = [], students = [rec_A1],
          trace = [(TunnelStart, True), (Connect, True), (OpenCursor, True),
                   (Execute (JStr ''A1'') (JStr ''Informatika''), True), (Commit, True)]\<rparr> =
     Raise MySQLError
       \<lparr>tunnel = Live, conn = Live, cursor = Live, pending = [], students = [rec_A1],
          trace = [(TunnelStart, True), (Connect, True), (OpenCursor, True),
                   (Execute (JStr ''A1'') (JStr ''Informatika''), True), (Commit, True),
                   (Execute (JStr ''A2'') (JStr ''Statistika''), False)]\<rparr> \<and>
   process_elements (fail_call 5) ([rec_A1] @ rec_A2 # [])
       \<lparr>tunnel = Live, conn = Live, cursor = Live, pending = [], students = [],
          trace = [(TunnelStart, True), (Connect, True), (OpenCursor, True)]\<rparr> =
     Raise MySQLError
       \<lparr>tunnel = Live, conn = Live, cursor = Live, pending = [], students = [rec_A1],
          trace = [(TunnelStart, True), (Connect, True), (OpenCursor, True),
                   (Execute (JStr ''A1'') (JStr ''Informatika''), True), (Commit, True),
                   (Execute (JStr ''A2'') (JStr ''Statistika''), False)]\<rparr>"
proof -
  have p: "pending \<lparr>tunnel = Live, conn = Live, cursor = Live, pending = [], students = [],
             trace = [(TunnelStart, True), (Connect, True), (OpenCursor, True)]\<rparr> = []"
    by simp
  have a: "process_elements (fail_call 5) [rec_A1]
       \<lparr>tunnel = Live, conn = Live, cursor = Live, pending = [], students = [],
          trace = [(TunnelStart, True), (Connect, True), (OpenCursor, True)]\<rparr> =
     Ok \<lparr>tunnel = Live, conn = Live, cursor = Live, pending = [], students = [rec_A1],
          trace = [(TunnelStart, True), (Connect, True), (OpenCursor, True),
                   (Execute (JStr ''A1'') (JStr ''Informatika''), True), (Commit, True)]\<rparr>"
    by (simp add: call_def InsertToMySQL_process_def insert_data_to_mysql_def fail_call_def
        rec_A1_def)
  have b: "InsertToMySQL_process (fail_call 5) rec_A2
       \<lparr>tunnel = Live, conn = Live, cursor = Live, pending = [], students = [rec_A1],
          trace = [(TunnelStart, True), (Connect, True), (OpenCursor, True),
                   (Execute (JStr ''A1'') (JStr ''Informatika''), True), (Commit, True)]\<rparr> =
     Raise MySQLError
       \<lparr>tunnel = Live, conn = Live, cursor = Live, pending = [], students = [rec_A1],
          trace = [(TunnelStart, True), (Connect, True), (OpenCursor, True),
                   (Execute (JStr ''A1'') (JStr ''Informatika''), True), (Commit, True),
                   (Execute (JStr ''A2'') (JStr ''Statistika''), False)]\<rparr>"
    by (simp add: call_def InsertToMySQL_process_def insert_data_to_mysql_def fail_call_def
        rec_A1_def rec_A2_def)
  from records_committed_one_by_one [OF p a b, of "[]"] p a b show ?thesis
    by blast
qed

text \<open>
  C2 as stated fails: the two records of a page are handed to the insert stage,
  the insert of the second one fails, and the table holds the first record of
  that page.
\<close>

theorem page_half_committed_counterexample:
  "InsertToMySQL_bundle (fail_call 5) [rec_A1, rec_A2] fresh_sink =
     Raise MySQLError
       \<lparr>tunnel = Live, conn = Live, cursor = Live, pending = [], students = [rec_A1],
          trace = [(TunnelStart, True), (Connect, True), (OpenCursor, True),
                   (Execute (JStr ''A1'') (JStr ''Informatika''), True), (Commit, True),
                   (Execute (JStr ''A2'') (JStr ''Statistika''), False)]\<rparr>"
  by (simp add: InsertToMySQL_bundle_def start_bundle_def open_ssh_tunnel_def call_def
      InsertToMySQL_process_def insert_data_to_mysql_def fail_call_def fresh_sink_def
      rec_A1_def rec_A2_def)

section \<open>Loading twice\<close>










section \<open>Exit status and output\<close>








end
